theory Spec2Isabelle
  imports Main "HOL-Library.Sublist" "HOL-Library.Char_ord" "HOL-Library.List_Lexorder"
begin

section \<open>The export list updater of \<open>tools/update_init_file.py\<close>\<close>

text \<open>
  The script filters the live namespace of a module and splices the sorted list of the
  relevant names into the \<open>__all__\<close> declaration of the module's source file. The model
  below follows the script function by function. A Python object is represented by what
  the script observes of it: its identity, the outcome of \<open>hash\<close>, the attributes that
  \<open>inspect.getattr_static\<close> finds, and whether \<open>inspect.ismodule\<close> accepts it.
\<close>

subsection \<open>Python values as the script observes them\<close>

datatype pyerror = AssertionError | TypeError | AttributeError

text \<open>The outcome of \<open>hash(obj)\<close>: an integer, or the \<open>TypeError\<close> of an unhashable object.\<close>

datatype hash_result = Hashed int | HashTypeError

text \<open>
  The value of a statically retrieved attribute: a \<open>str\<close>, or any other object. Of an
  object that is not a \<open>str\<close> the script uses the truth value and, for \<open>__file__\<close>, the
  outcome of calling its \<open>startswith\<close> on the text of the working directory: \<open>None\<close> has no
  such method (\<open>AttributeError\<close>), \<open>bytes\<close> reject a \<open>str\<close> argument (\<open>TypeError\<close>), and
  an object with a method of that name answers with some truth value.
\<close>

datatype pyattr = PStr string | PNonStr bool "pyerror + bool"

record pyobj =
  obj_id :: nat
  obj_hash :: hash_result
  obj_attrs :: "(string \<times> pyattr) list"
  obj_ismodule :: bool

text \<open>
  What the interpreter and the rest of the installation supply: the \<open>==\<close> of objects, the
  text of \<open>str(Path.cwd())\<close>, the \<open>__dict__\<close> of \<open>altair.vegalite.v5.schema._typing\<close> and of
  \<open>altair\<close> (in iteration order), the \<open>repr\<close> of a \<open>str\<close>, and the file content that
  \<open>tools.codemod.ruff.write_lint_format\<close> leaves on disk for a sequence of lines.
  A \<open>dict\<close> is the list of its items in iteration order; its keys are unique, which the
  properties below assume as \<open>distinct (map fst ns)\<close> where they need it.
\<close>

record env =
  py_eq :: "pyobj \<Rightarrow> pyobj \<Rightarrow> bool"
  cwd :: string
  typing_dict :: "(string \<times> pyobj) list"
  alt_dict :: "(string \<times> pyobj) list"
  str_repr :: "string \<Rightarrow> string"
  write_lint_format :: "string list \<Rightarrow> string list"

text \<open>
  The mutable state: the lines that \<open>readlines()\<close> yields for \<open>altair/__init__.py\<close>, and the
  module global \<open>_TYPING_CONSTRUCTS\<close>.
\<close>

record world =
  init_file :: "string list"
  typing_constructs :: "pyobj set"

definition startswith :: "string \<Rightarrow> string \<Rightarrow> bool" where
  "startswith s p = prefix p s"

definition truthy :: "pyattr \<Rightarrow> bool" where
  "truthy a = (case a of PStr s \<Rightarrow> s \<noteq> [] | PNonStr b r \<Rightarrow> b)"

definition getattr_static :: "pyobj \<Rightarrow> string \<Rightarrow> pyattr \<Rightarrow> pyattr" where
  "getattr_static obj name dflt =
     (case map_of (obj_attrs obj) name of None \<Rightarrow> dflt | Some a \<Rightarrow> a)"

definition ismodule :: "pyobj \<Rightarrow> bool" where
  "ismodule obj = obj_ismodule obj"

text \<open>
  The object \<open>False\<close> as the default of a static lookup, and as an object of the
  namespace; \<open>typing.TYPE_CHECKING\<close> is bound to it at runtime.
\<close>

definition attr_False :: pyattr where
  "attr_False = PNonStr False (Inl AttributeError)"

definition py_False :: pyobj where
  "py_False = \<lparr>obj_id = 0, obj_hash = Hashed 0, obj_attrs = [], obj_ismodule = False\<rparr>"

definition TYPE_CHECKING :: pyobj where
  "TYPE_CHECKING = py_False"

definition py_is :: "pyobj \<Rightarrow> pyobj \<Rightarrow> bool" where
  "py_is x y = (obj_id x = obj_id y)"

text \<open>
  \<open>x in s\<close> for a set: hashing an unhashable \<open>x\<close> raises; otherwise an entry matches when
  its hash is that of \<open>x\<close> and it is \<open>x\<close> itself or compares equal to it.
\<close>

definition py_in :: "env \<Rightarrow> pyobj \<Rightarrow> pyobj set \<Rightarrow> pyerror + bool" where
  "py_in E x S =
     (case obj_hash x of
        HashTypeError \<Rightarrow> Inl TypeError
      | Hashed h \<Rightarrow> Inr (\<exists>y\<in>S. obj_hash y = Hashed h \<and> (py_is y x \<or> py_eq E y x)))"

text \<open>\<open>s.add(x)\<close>, and \<open>s.update(xs)\<close> as the sequence of its additions.\<close>

definition set_add :: "env \<Rightarrow> pyobj set \<Rightarrow> pyobj \<Rightarrow> pyerror + pyobj set" where
  "set_add E S x =
     (case py_in E x S of
        Inl e \<Rightarrow> Inl e
      | Inr b \<Rightarrow> Inr (if b then S else insert x S))"

fun set_update :: "env \<Rightarrow> pyobj set \<Rightarrow> pyobj list \<Rightarrow> (pyerror + unit) \<times> pyobj set" where
  "set_update E S [] = (Inr (), S)"
| "set_update E S (x # xs) =
     (case set_add E S x of
        Inl e \<Rightarrow> (Inl e, S)
      | Inr S' \<Rightarrow> set_update E S' xs)"

text \<open>The short-circuit \<open>or\<close> and \<open>and\<close> of conditions that may raise.\<close>

definition or_else :: "pyerror + bool \<Rightarrow> pyerror + bool \<Rightarrow> pyerror + bool" where
  "or_else a b = (case a of Inl e \<Rightarrow> Inl e | Inr c \<Rightarrow> (if c then Inr True else b))"

definition and_then :: "pyerror + bool \<Rightarrow> pyerror + bool \<Rightarrow> pyerror + bool" where
  "and_then a b = (case a of Inl e \<Rightarrow> Inl e | Inr c \<Rightarrow> (if c then b else Inr False))"

subsection \<open>The relevance predicate\<close>

text \<open>\<open>try: return bool(hash(obj))\<close>, \<open>except TypeError: return False\<close>.\<close>

definition is_hashable :: "pyobj \<Rightarrow> bool" where
  "is_hashable obj = (case obj_hash obj of Hashed h \<Rightarrow> h \<noteq> 0 | HashTypeError \<Rightarrow> False)"

text \<open>\<open>a.startswith(p)\<close> on a retrieved attribute.\<close>

definition attr_startswith :: "pyattr \<Rightarrow> string \<Rightarrow> pyerror + bool" where
  "attr_startswith a p =
     (case a of PStr s \<Rightarrow> Inr (startswith s p) | PNonStr b r \<Rightarrow> r)"

definition is_relevant :: "env \<Rightarrow> pyobj set \<Rightarrow> pyobj \<Rightarrow> string \<Rightarrow> pyerror + bool" where
  "is_relevant E S attr name =
     (case or_else (Inr (truthy (getattr_static attr ''_deprecated'' attr_False)))
          (or_else (Inr (py_is attr TYPE_CHECKING))
          (or_else (and_then (Inr (is_hashable attr)) (py_in E attr S))
          (or_else (Inr (name \<in> {''pd'', ''jsonschema''}))
                   (Inr (truthy (getattr_static attr ''__deprecated__'' attr_False))))))
      of
        Inl e \<Rightarrow> Inl e
      | Inr excluded \<Rightarrow>
          if excluded then Inr False
          else if ismodule attr
            then attr_startswith (getattr_static attr ''__file__'' (PStr [])) (cwd E)
          else Inr True)"

subsection \<open>The relevance filter\<close>

text \<open>
  The generator \<open>it\<close>, as \<open>sorted\<close> consumes it: the names of the entries that pass, in
  iteration order, or the first error raised on the way.
\<close>

fun relevant_names :: "env \<Rightarrow> pyobj set \<Rightarrow> (string \<times> pyobj) list \<Rightarrow> pyerror + string list" where
  "relevant_names E S [] = Inr []"
| "relevant_names E S ((name, attr) # rest) =
     (case and_then (Inr (\<not> startswith name ''_'')) (is_relevant E S attr name) of
        Inl e \<Rightarrow> Inl e
      | Inr keep \<Rightarrow>
          (case relevant_names E S rest of
             Inl e \<Rightarrow> Inl e
           | Inr names \<Rightarrow> Inr (if keep then name # names else names)))"

text \<open>The values that the generator handed to \<open>_TYPING_CONSTRUCTS.update\<close> yields.\<close>

definition typing_values :: "env \<Rightarrow> pyobj list" where
  "typing_values E =
     map snd (filter (\<lambda>(k, v). \<not> startswith k ''__'' \<and> is_hashable v) (typing_dict E))"

definition relevant_attributes ::
  "env \<Rightarrow> (string \<times> pyobj) list \<Rightarrow> pyobj set \<Rightarrow> (pyerror + string list) \<times> pyobj set" where
  "relevant_attributes E namespace S =
     (case set_update E S (typing_values E) of
        (Inl e, S') \<Rightarrow> (Inl e, S')
      | (Inr u, S') \<Rightarrow>
          (case relevant_names E S' namespace of
             Inl e \<Rightarrow> (Inl e, S')
           | Inr names \<Rightarrow> (Inr (sort names), S')))"

subsection \<open>Rewriting the declaration\<close>

text \<open>\<open>line.strip("\n")\<close> removes the newline characters at both ends.\<close>

definition strip_newlines :: "string \<Rightarrow> string" where
  "strip_newlines s =
     rev (dropWhile (\<lambda>c. c = CHR 0x0A) (rev (dropWhile (\<lambda>c. c = CHR 0x0A) s)))"

text \<open>
  The loop over \<open>enumerate(lines)\<close>: the remaining lines, the index of the next one and
  the value of \<open>first_definition_line\<close>; it ends with both variables.
\<close>

fun find_definition :: "string list \<Rightarrow> nat \<Rightarrow> nat option \<Rightarrow> nat option \<times> nat option" where
  "find_definition [] idx first = (first, None)"
| "find_definition (line # rest) idx first =
     (if startswith line ''__all__ ='' then find_definition rest (Suc idx) (Some idx)
      else if first \<noteq> None \<and> startswith line '']'' then (first, Some idx)
      else find_definition rest (Suc idx) first)"

text \<open>The \<open>repr\<close> of a list of \<open>str\<close>, which the f-string inserts.\<close>

fun join :: "string \<Rightarrow> string list \<Rightarrow> string" where
  "join sep [] = []"
| "join sep [x] = x"
| "join sep (x # y # ys) = x @ sep @ join sep (y # ys)"

definition list_repr :: "env \<Rightarrow> string list \<Rightarrow> string" where
  "list_repr E names = ''['' @ join '', '' (map (str_repr E) names) @ '']''"

definition update__all__variable :: "env \<Rightarrow> world \<Rightarrow> (pyerror + unit) \<times> world" where
  "update__all__variable E w =
     (let lines = map strip_newlines (init_file w) in
      case find_definition lines 0 None of
        (None, last_line) \<Rightarrow> (Inl AssertionError, w)
      | (Some first_line, None) \<Rightarrow> (Inl AssertionError, w)
      | (Some first_line, Some last_line) \<Rightarrow>
          (case relevant_attributes E (alt_dict E) (typing_constructs w) of
             (Inl e, S') \<Rightarrow> (Inl e, w\<lparr>typing_constructs := S'\<rparr>)
           | (Inr names, S') \<Rightarrow>
               (Inr (),
                \<lparr>init_file = write_lint_format E
                   (take first_line lines @ [''__all__ = '' @ list_repr E names]
                      @ drop (last_line + 1) lines),
                 typing_constructs = S'\<rparr>)))"

subsection \<open>Auxiliary notions\<close>

text \<open>
  An entry of the namespace passes the filter when its name is not private and the
  predicate accepts it; it raises when the predicate raises on it.
\<close>

definition passes :: "env \<Rightarrow> pyobj set \<Rightarrow> string \<times> pyobj \<Rightarrow> bool" where
  "passes E S = (\<lambda>(name, attr). \<not> startswith name ''_'' \<and> is_relevant E S attr name = Inr True)"

definition raises :: "env \<Rightarrow> pyobj set \<Rightarrow> string \<times> pyobj \<Rightarrow> bool" where
  "raises E S = (\<lambda>(name, attr). \<not> startswith name ''_'' \<and> isl (is_relevant E S attr name))"

text \<open>The exclusion set after a sequence of calls of \<open>relevant_attributes\<close> in one process.\<close>

fun after_calls :: "env \<Rightarrow> pyobj set \<Rightarrow> (string \<times> pyobj) list list \<Rightarrow> pyobj set" where
  "after_calls E S [] = S"
| "after_calls E S (ns # nss) = after_calls E (snd (relevant_attributes E ns S)) nss"

subsection \<open>A sample installation\<close>

text \<open>
  Objects with the default identity hash and no markers, a deprecated class, a list, the
  integer \<open>0\<close> (whose hash is \<open>0\<close>), and modules with given attributes.
\<close>

definition demo_class :: "nat \<Rightarrow> pyobj" where
  "demo_class i = \<lparr>obj_id = i, obj_hash = Hashed (int i), obj_attrs = [], obj_ismodule = False\<rparr>"

definition demo_deprecated :: pyobj where
  "demo_deprecated = \<lparr>obj_id = 20, obj_hash = Hashed 20,
     obj_attrs = [(''_deprecated'', PNonStr True (Inl AttributeError))], obj_ismodule = False\<rparr>"

definition demo_list :: pyobj where
  "demo_list = \<lparr>obj_id = 21, obj_hash = HashTypeError, obj_attrs = [], obj_ismodule = False\<rparr>"

definition demo_zero :: pyobj where
  "demo_zero = \<lparr>obj_id = 22, obj_hash = Hashed 0, obj_attrs = [], obj_ismodule = False\<rparr>"

definition demo_module :: "nat \<Rightarrow> (string \<times> pyattr) list \<Rightarrow> pyobj" where
  "demo_module i attrs =
     \<lparr>obj_id = i, obj_hash = Hashed (int i), obj_attrs = attrs, obj_ismodule = True\<rparr>"

text \<open>
  A sub-module of the project, a module of the standard library, and a built-in module,
  which has no \<open>__file__\<close>.
\<close>

definition demo_utils :: pyobj where
  "demo_utils = demo_module 51 [(''__file__'', PStr ''/repo/altair/utils/__init__.py'')]"

definition demo_json :: pyobj where
  "demo_json = demo_module 53 [(''__file__'', PStr ''/usr/lib/python3/json/__init__.py'')]"

definition demo_sys :: pyobj where
  "demo_sys = demo_module 52 []"

text \<open>
  A namespace package, whose \<open>__file__\<close> is \<open>None\<close>, and a package installed in a
  directory beside the project whose name extends that of the project directory.
\<close>

definition demo_nspkg :: pyobj where
  "demo_nspkg = demo_module 54 [(''__file__'', PNonStr False (Inl AttributeError))]"

definition demo_sibling :: pyobj where
  "demo_sibling = demo_module 55 [(''__file__'', PStr ''/repo2/altair/__init__.py'')]"

definition demo_namespace :: "(string \<times> pyobj) list" where
  "demo_namespace =
     [(''b'', demo_class 40), (''_a'', demo_class 41), (''B'', demo_class 42),
      (''Map'', demo_class 32), (''flag'', py_False), (''OldChart'', demo_deprecated),
      (''config_list'', demo_list),
      (''pd'', demo_module 50 [(''__file__'', PStr ''/site/pandas/__init__.py'')]),
      (''utils'', demo_utils), (''sys'', demo_sys), (''json'', demo_json)]"

text \<open>A second namespace, which binds a value of the typing module under a new name.\<close>

definition other_namespace :: "(string \<times> pyobj) list" where
  "other_namespace = [(''Alias'', demo_class 32), (''Other'', demo_class 60)]"

definition demo_env :: env where
  "demo_env =
     \<lparr>py_eq = (\<lambda>x y. obj_id x = obj_id y), cwd = ''/repo'',
      typing_dict = [(''__name__'', demo_class 30), (''_T'', demo_class 31),
                     (''Map'', demo_class 32), (''cache'', demo_list)],
      alt_dict = demo_namespace,
      str_repr = (\<lambda>s. [CHR 0x27] @ s @ [CHR 0x27]),
      write_lint_format = map (\<lambda>l. l @ [CHR 0x0A])\<rparr>"

definition demo_excluded :: "pyobj set" where
  "demo_excluded = {demo_class 31, demo_class 32}"

text \<open>A typing module that binds one private name, and one that binds the integer \<open>0\<close>.\<close>

definition private_env :: env where
  "private_env = demo_env\<lparr>typing_dict := [(''_T'', demo_class 31)]\<rparr>"

definition zero_env :: env where
  "zero_env = demo_env\<lparr>typing_dict := [(''Zero'', demo_zero)]\<rparr>"

text \<open>
  Three states of the file: with a declaration, without one, and with a declaration that
  no line closes.
\<close>

definition demo_line :: "string \<Rightarrow> string" where
  "demo_line s = s @ [CHR 0x0A]"

definition demo_world :: world where
  "demo_world =
     \<lparr>init_file = map demo_line
        [''import x'', ''__all__ = ['', ''    Chart,'', '']'', ''y = 1''],
      typing_constructs = {}\<rparr>"

definition demo_world_no_decl :: world where
  "demo_world_no_decl =
     \<lparr>init_file = map demo_line [''import x'', '']'', ''y = 1''], typing_constructs = {}\<rparr>"

definition demo_world_unclosed :: world where
  "demo_world_unclosed =
     \<lparr>init_file = map demo_line ['']'', ''__all__ = ['', ''    Chart,''],
      typing_constructs = {}\<rparr>"

section \<open>Properties\<close>

subsection \<open>The exclusion set\<close>

lemma is_hashable_iff: "is_hashable v \<longleftrightarrow> (\<exists>h. obj_hash v = Hashed h \<and> h \<noteq> 0)"
  by (auto simp: is_hashable_def split: hash_result.splits)

lemma py_in_mono:
  "py_in E x S = Inr True \<Longrightarrow> S \<subseteq> T \<Longrightarrow> py_in E x T = Inr True"
  by (auto simp: py_in_def split: hash_result.splits)

lemma py_in_self:
  "obj_hash x \<noteq> HashTypeError \<Longrightarrow> x \<in> S \<Longrightarrow> py_in E x S = Inr True"
  by (cases "obj_hash x") (auto simp: py_in_def py_is_def)

lemma set_add_hashed:
  "obj_hash x \<noteq> HashTypeError \<Longrightarrow>
     set_add E S x = Inr (if py_in E x S = Inr True then S else insert x S)"
  by (cases "obj_hash x") (auto simp: set_add_def py_in_def)

lemma set_update_ok:
  "\<forall>x\<in>set xs. obj_hash x \<noteq> HashTypeError \<Longrightarrow> fst (set_update E S xs) = Inr ()"
  by (induction xs arbitrary: S) (simp_all add: set_add_hashed)

lemma set_update_grows:
  "S \<subseteq> snd (set_update E S xs)"
proof (induction xs arbitrary: S)
  case Nil
  show ?case by simp
next
  case (Cons x xs)
  show ?case
  proof (cases "set_add E S x")
    case (Inl e)
    then show ?thesis by simp
  next
    case (Inr S')
    then have "S \<subseteq> S'"
      by (auto simp: set_add_def split: sum.splits if_splits)
    with Cons [of S'] Inr show ?thesis by auto
  qed
qed

lemma set_update_bound:
  "snd (set_update E S xs) \<subseteq> S \<union> set xs"
proof (induction xs arbitrary: S)
  case Nil
  show ?case by simp
next
  case (Cons x xs)
  show ?case
  proof (cases "set_add E S x")
    case (Inl e)
    then show ?thesis by auto
  next
    case (Inr S')
    then have "S' \<subseteq> insert x S"
      by (auto simp: set_add_def split: sum.splits if_splits)
    with Cons [of S'] Inr show ?thesis by auto
  qed
qed

lemma set_update_contains:
  "\<forall>x\<in>set xs. obj_hash x \<noteq> HashTypeError \<Longrightarrow> x \<in> set xs \<Longrightarrow>
     py_in E x (snd (set_update E S xs)) = Inr True"
proof (induction xs arbitrary: S)
  case Nil
  then show ?case by simp
next
  case (Cons y ys)
  let ?S' = "if py_in E y S = Inr True then S else insert y S"
  from Cons.prems have hy: "obj_hash y \<noteq> HashTypeError" by simp
  then have step: "set_update E S (y # ys) = set_update E ?S' ys"
    by (simp add: set_add_hashed)
  show ?case
  proof (cases "x \<in> set ys")
    case True
    with Cons show ?thesis unfolding step by simp
  next
    case False
    with Cons.prems have "x = y" by simp
    then have "py_in E x ?S' = Inr True"
      using hy by (auto simp: py_in_self)
    then show ?thesis
      unfolding step using set_update_grows [of ?S' E ys] by (rule py_in_mono)
  qed
qed

lemma set_update_fixed:
  "\<forall>x\<in>set xs. py_in E x S = Inr True \<Longrightarrow> set_update E S xs = (Inr (), S)"
  by (induction xs) (simp_all add: set_add_def)

lemma typing_values_hashed:
  "x \<in> set (typing_values E) \<Longrightarrow> obj_hash x \<noteq> HashTypeError"
  by (auto simp: typing_values_def is_hashable_iff)

subsection \<open>The predicate and the filter\<close>

lemma is_relevant_cases:
  "is_relevant E S attr name =
     (if truthy (getattr_static attr ''_deprecated'' attr_False)
         \<or> py_is attr TYPE_CHECKING
         \<or> (is_hashable attr \<and> py_in E attr S = Inr True)
         \<or> name \<in> {''pd'', ''jsonschema''}
         \<or> truthy (getattr_static attr ''__deprecated__'' attr_False)
      then Inr False
      else if ismodule attr
        then attr_startswith (getattr_static attr ''__file__'' (PStr [])) (cwd E)
      else Inr True)"
  by (cases "obj_hash attr")
     (auto simp add: is_relevant_def or_else_def and_then_def is_hashable_def py_in_def)

lemma relevant_names_ok:
  "\<forall>p\<in>set ns. \<not> raises E S p \<Longrightarrow>
     relevant_names E S ns = Inr (map fst (filter (passes E S) ns))"
proof (induction ns)
  case Nil
  show ?case by simp
next
  case (Cons p ns)
  obtain name attr where p: "p = (name, attr)" by (cases p)
  show ?case
  proof (cases "is_relevant E S attr name")
    case (Inl e)
    with p Cons show ?thesis
      by (simp add: and_then_def raises_def passes_def)
  next
    case (Inr b)
    with p Cons show ?thesis
      by (simp add: and_then_def raises_def passes_def)
  qed
qed

lemma relevant_names_Inr:
  "relevant_names E S ns = Inr names \<Longrightarrow> \<forall>p\<in>set ns. \<not> raises E S p"
proof (induction ns arbitrary: names)
  case Nil
  show ?case by simp
next
  case (Cons p ns)
  obtain name attr where p: "p = (name, attr)" by (cases p)
  from Cons.prems p obtain rest where rest: "relevant_names E S ns = Inr rest"
    by (auto split: sum.splits)
  from Cons.prems p have "\<not> raises E S p"
    by (auto simp: raises_def and_then_def split: sum.splits if_splits)
  with Cons.IH [OF rest] show ?case by simp
qed

lemma typing_update_ok:
  "fst (set_update E S (typing_values E)) = Inr ()"
  by (rule set_update_ok) (simp add: typing_values_hashed)

lemma relevant_attributes_eq:
  "relevant_attributes E ns S =
     (case relevant_names E (snd (set_update E S (typing_values E))) ns of
        Inl e \<Rightarrow> Inl e
      | Inr names \<Rightarrow> Inr (sort names),
      snd (set_update E S (typing_values E)))"
proof -
  obtain S' where "set_update E S (typing_values E) = (Inr (), S')"
    using typing_update_ok [of E S] by (cases "set_update E S (typing_values E)") auto
  then show ?thesis
    by (simp add: relevant_attributes_def split: sum.splits)
qed


lemma truthy_attr_False [simp]: "\<not> truthy attr_False"
  by (simp add: truthy_def attr_False_def)

lemma static_truthy:
  "map_of (obj_attrs attr) name = Some a \<Longrightarrow> truthy a \<Longrightarrow> truthy (getattr_static attr name dflt)"
  by (simp add: getattr_static_def)

lemma relevant_attributes_names:
  assumes "relevant_attributes E ns S = (Inr names, S')"
  shows "S' = snd (set_update E S (typing_values E))"
    and "names = sort (map fst (filter (passes E S') ns))"
    and "\<forall>p\<in>set ns. \<not> raises E S' p"
proof -
  from assms show S': "S' = snd (set_update E S (typing_values E))"
    by (simp add: relevant_attributes_eq)
  from assms obtain raw where raw: "relevant_names E S' ns = Inr raw" and n: "names = sort raw"
    unfolding S' by (auto simp: relevant_attributes_eq split: sum.splits)
  from raw show r: "\<forall>p\<in>set ns. \<not> raises E S' p"
    by (rule relevant_names_Inr)
  from relevant_names_ok [OF r] raw n
  show "names = sort (map fst (filter (passes E S') ns))" by simp
qed

subsection \<open>The scan for the declaration\<close>

lemma decl_not_close: "startswith l ''__all__ ='' \<Longrightarrow> \<not> startswith l '']''"
  by (cases l) (auto simp: startswith_def)

lemma find_definition_no_decl:
  "\<forall>l\<in>set ls. \<not> startswith l ''__all__ ='' \<Longrightarrow> find_definition ls idx None = (None, None)"
  by (induction ls arbitrary: idx) simp_all

lemma find_definition_no_close:
  "(first \<noteq> None \<longrightarrow> (\<forall>l\<in>set ls. \<not> startswith l '']'')) \<Longrightarrow>
   (\<forall>i j. i < j \<and> j < length ls \<and> startswith (ls ! i) ''__all__ ='' \<longrightarrow> \<not> startswith (ls ! j) '']'') \<Longrightarrow>
   snd (find_definition ls idx first) = None"
proof (induction ls arbitrary: idx first)
  case Nil
  show ?case by simp
next
  case (Cons line rest)
  have shift: "\<forall>i j. i < j \<and> j < length rest \<and> startswith (rest ! i) ''__all__ ='' \<longrightarrow> \<not> startswith (rest ! j) '']''"
  proof (intro allI impI)
    fix i j
    assume "i < j \<and> j < length rest \<and> startswith (rest ! i) ''__all__ =''"
    then have "Suc i < Suc j \<and> Suc j < length (line # rest) \<and> startswith ((line # rest) ! Suc i) ''__all__ =''"
      by simp
    with Cons.prems(2) have "\<not> startswith ((line # rest) ! Suc j) '']''" by blast
    then show "\<not> startswith (rest ! j) '']''" by simp
  qed
  show ?case
  proof (cases "startswith line ''__all__ =''")
    case True
    have "\<forall>l\<in>set rest. \<not> startswith l '']''"
    proof
      fix l assume "l \<in> set rest"
      then obtain j where j: "j < length rest" "rest ! j = l"
        by (auto simp: in_set_conv_nth)
      with True have "0 < Suc j \<and> Suc j < length (line # rest) \<and> startswith ((line # rest) ! 0) ''__all__ =''"
        by simp
      with Cons.prems(2) have "\<not> startswith ((line # rest) ! Suc j) '']''" by blast
      with j show "\<not> startswith l '']''" by simp
    qed
    with True shift Cons.IH [of "Some idx" "Suc idx"] show ?thesis by simp
  next
    case False
    with Cons.prems(1) shift Cons.IH [of first "Suc idx"] show ?thesis by auto
  qed
qed

lemma find_definition_split:
  "find_definition ls idx first = (Some i, Some j) \<Longrightarrow>
     \<exists>pre c post. ls = pre @ c # post \<and> j = idx + length pre \<and> startswith c '']''
       \<and> (\<forall>p l q. pre = p @ l # q \<and> startswith l '']'' \<longrightarrow>
             first = None \<and> (\<forall>x\<in>set p. \<not> startswith x ''__all__ =''))
       \<and> ((\<forall>x\<in>set pre. \<not> startswith x ''__all__ ='') \<and> first = Some i
            \<or> (\<exists>p opn q. pre = p @ opn # q \<and> startswith opn ''__all__ =''
                  \<and> (\<forall>x\<in>set q. \<not> startswith x ''__all__ ='') \<and> i = idx + length p))"
proof (induction ls arbitrary: idx first)
  case Nil
  then show ?case by simp
next
  case (Cons line rest)
  show ?case
  proof (cases "startswith line ''__all__ =''")
    case True
    with Cons.prems have "find_definition rest (Suc idx) (Some idx) = (Some i, Some j)" by simp
    from Cons.IH [OF this] obtain pre c post where
      r: "rest = pre @ c # post" and j: "j = Suc idx + length pre" and c: "startswith c '']''"
      and A0: "\<forall>p l q. pre = p @ l # q \<and> startswith l '']'' \<longrightarrow>
             Some idx = None \<and> (\<forall>x\<in>set p. \<not> startswith x ''__all__ ='')"
      and B0: "(\<forall>x\<in>set pre. \<not> startswith x ''__all__ ='') \<and> Some idx = Some i
            \<or> (\<exists>p opn q. pre = p @ opn # q \<and> startswith opn ''__all__ =''
                  \<and> (\<forall>x\<in>set q. \<not> startswith x ''__all__ ='') \<and> i = Suc idx + length p)"
      by blast
    from A0 have A: "\<forall>p l q. pre = p @ l # q \<longrightarrow> \<not> startswith l '']''"
      by blast
    from B0 have B: "(\<forall>x\<in>set pre. \<not> startswith x ''__all__ ='') \<and> idx = i
            \<or> (\<exists>p opn q. pre = p @ opn # q \<and> startswith opn ''__all__ =''
                  \<and> (\<forall>x\<in>set q. \<not> startswith x ''__all__ ='') \<and> i = Suc idx + length p)"
      by simp
    have A': "\<forall>p l q. line # pre = p @ l # q \<and> startswith l '']'' \<longrightarrow>
             first = None \<and> (\<forall>x\<in>set p. \<not> startswith x ''__all__ ='')"
      using A True decl_not_close by (auto simp: Cons_eq_append_conv)
    have B': "\<exists>p opn q. line # pre = p @ opn # q \<and> startswith opn ''__all__ =''
                  \<and> (\<forall>x\<in>set q. \<not> startswith x ''__all__ ='') \<and> i = idx + length p"
      using B
    proof
      assume "(\<forall>x\<in>set pre. \<not> startswith x ''__all__ ='') \<and> idx = i"
      with True have "line # pre = [] @ line # pre \<and> startswith line ''__all__ =''
                  \<and> (\<forall>x\<in>set pre. \<not> startswith x ''__all__ ='') \<and> i = idx + length ([]::string list)"
        by simp
      then show ?thesis by blast
    next
      assume "\<exists>p opn q. pre = p @ opn # q \<and> startswith opn ''__all__ =''
                  \<and> (\<forall>x\<in>set q. \<not> startswith x ''__all__ ='') \<and> i = Suc idx + length p"
      then obtain p opn q where "pre = p @ opn # q" "startswith opn ''__all__ =''"
         "\<forall>x\<in>set q. \<not> startswith x ''__all__ =''" "i = Suc idx + length p" by blast
      then have "line # pre = (line # p) @ opn # q \<and> startswith opn ''__all__ =''
                  \<and> (\<forall>x\<in>set q. \<not> startswith x ''__all__ ='') \<and> i = idx + length (line # p)"
        by simp
      then show ?thesis by blast
    qed
    have "line # rest = (line # pre) @ c # post \<and> j = idx + length (line # pre) \<and> startswith c '']''"
      using r j c by simp
    with A' B' show ?thesis by blast
  next
    case nd: False
    show ?thesis
    proof (cases "first \<noteq> None \<and> startswith line '']''")
      case True
      with nd Cons.prems have "first = Some i" "j = idx" by simp_all
      with True have "line # rest = [] @ line # rest \<and> j = idx + length ([]::string list) \<and> startswith line '']''
         \<and> (\<forall>p l q. ([]::string list) = p @ l # q \<and> startswith l '']'' \<longrightarrow>
             first = None \<and> (\<forall>x\<in>set p. \<not> startswith x ''__all__ =''))
         \<and> ((\<forall>x\<in>set ([]::string list). \<not> startswith x ''__all__ ='') \<and> first = Some i)"
        by simp
      then show ?thesis by blast
    next
      case False
      with nd Cons.prems have "find_definition rest (Suc idx) first = (Some i, Some j)" by auto
      from Cons.IH [OF this] obtain pre c post where
        r: "rest = pre @ c # post" and j: "j = Suc idx + length pre" and c: "startswith c '']''"
        and A: "\<forall>p l q. pre = p @ l # q \<and> startswith l '']'' \<longrightarrow>
             first = None \<and> (\<forall>x\<in>set p. \<not> startswith x ''__all__ ='')"
        and B: "(\<forall>x\<in>set pre. \<not> startswith x ''__all__ ='') \<and> first = Some i
            \<or> (\<exists>p opn q. pre = p @ opn # q \<and> startswith opn ''__all__ =''
                  \<and> (\<forall>x\<in>set q. \<not> startswith x ''__all__ ='') \<and> i = Suc idx + length p)"
        by blast
      have A': "\<forall>p l q. line # pre = p @ l # q \<and> startswith l '']'' \<longrightarrow>
             first = None \<and> (\<forall>x\<in>set p. \<not> startswith x ''__all__ ='')"
      proof (intro allI impI)
        fix p l q
        assume h: "line # pre = p @ l # q \<and> startswith l '']''"
        show "first = None \<and> (\<forall>x\<in>set p. \<not> startswith x ''__all__ ='')"
        proof (cases p)
          case Nil
          with h False show ?thesis by auto
        next
          case (Cons x p')
          with h have "pre = p' @ l # q \<and> startswith l '']''" "x = line" by simp_all
          with A nd Cons show ?thesis by auto
        qed
      qed
      have B': "(\<forall>x\<in>set (line # pre). \<not> startswith x ''__all__ ='') \<and> first = Some i
            \<or> (\<exists>p opn q. line # pre = p @ opn # q \<and> startswith opn ''__all__ =''
                  \<and> (\<forall>x\<in>set q. \<not> startswith x ''__all__ ='') \<and> i = idx + length p)"
        using B
      proof
        assume "(\<forall>x\<in>set pre. \<not> startswith x ''__all__ ='') \<and> first = Some i"
        with nd show ?thesis by simp
      next
        assume "\<exists>p opn q. pre = p @ opn # q \<and> startswith opn ''__all__ =''
                  \<and> (\<forall>x\<in>set q. \<not> startswith x ''__all__ ='') \<and> i = Suc idx + length p"
        then obtain p opn q where "pre = p @ opn # q" "startswith opn ''__all__ =''"
           "\<forall>x\<in>set q. \<not> startswith x ''__all__ =''" "i = Suc idx + length p" by blast
        then have "line # pre = (line # p) @ opn # q \<and> startswith opn ''__all__ =''
                  \<and> (\<forall>x\<in>set q. \<not> startswith x ''__all__ ='') \<and> i = idx + length (line # p)"
          by simp
        then show ?thesis by blast
      qed
      have "line # rest = (line # pre) @ c # post \<and> j = idx + length (line # pre) \<and> startswith c '']''"
        using r j c by simp
      with A' B' show ?thesis by blast
    qed
  qed
qed

section \<open>The claims\<close>

subsection \<open>Deprecated values\<close>

text \<open>
  Claim C7. A value that carries, by static lookup, a truthy \<open>_deprecated\<close> attribute or a
  truthy \<open>__deprecated__\<close> attribute is rejected by the relevance predicate whatever its
  name and whatever the exclusion set; a namespace that holds only such a value yields the
  empty list.
\<close>

theorem deprecated_excluded:
  assumes "(\<exists>a. map_of (obj_attrs attr) ''_deprecated'' = Some a \<and> truthy a)
         \<or> (\<exists>a. map_of (obj_attrs attr) ''__deprecated__'' = Some a \<and> truthy a)"
  shows "is_relevant E S attr name = Inr False
       \<and> fst (relevant_attributes E [(name, attr)] S) = Inr []"
proof -
  from assms have "truthy (getattr_static attr ''_deprecated'' attr_False)
      \<or> truthy (getattr_static attr ''__deprecated__'' attr_False)"
    by (auto intro: static_truthy)
  then have ex: "is_relevant E T attr name = Inr False" for T
    by (auto simp: is_relevant_cases)
  then show ?thesis
    by (simp add: relevant_attributes_eq and_then_def)
qed

theorem deprecated_excluded_witness:
  "map_of (obj_attrs demo_deprecated) ''_deprecated'' = Some (PNonStr True (Inl AttributeError)) \<and> truthy (PNonStr True (Inl AttributeError))
   \<and> is_relevant demo_env {} demo_deprecated ''OldChart'' = Inr False
   \<and> fst (relevant_attributes demo_env [(''OldChart'', demo_deprecated)] {}) = Inr []"
proof -
  have h: "map_of (obj_attrs demo_deprecated) ''_deprecated'' = Some (PNonStr True (Inl AttributeError)) \<and> truthy (PNonStr True (Inl AttributeError))"
    by (simp add: demo_deprecated_def truthy_def)
  then have "(\<exists>a. map_of (obj_attrs demo_deprecated) ''_deprecated'' = Some a \<and> truthy a)
         \<or> (\<exists>a. map_of (obj_attrs demo_deprecated) ''__deprecated__'' = Some a \<and> truthy a)"
    by blast
  from deprecated_excluded [OF this, of demo_env "{}" "''OldChart''"] h show ?thesis by simp
qed

subsection \<open>The type-checking sentinel\<close>

text \<open>
  Claim C9. The sentinel \<open>TYPE_CHECKING\<close> is the object \<open>False\<close> and the predicate tests
  identity with it, so every entry of the namespace whose value is \<open>False\<close> is rejected,
  under any name, and its name is absent from the returned list.
\<close>

theorem false_excluded:
  assumes "relevant_attributes E ns S = (Inr names, S')"
    and "(name, attr) \<in> set ns" and "py_is attr py_False" and "distinct (map fst ns)"
  shows "is_relevant E S' attr name = Inr False \<and> name \<notin> set names"
proof -
  from assms(3) have ex: "is_relevant E S' attr name = Inr False"
    by (simp add: is_relevant_cases TYPE_CHECKING_def)
  have "name \<notin> set names"
  proof
    assume "name \<in> set names"
    then obtain a where a: "(name, a) \<in> set ns" "passes E S' (name, a)"
      unfolding relevant_attributes_names(2) [OF assms(1)] by auto
    from assms(4) a(1) assms(2) have "a = attr"
      by (meson eq_key_imp_eq_value)
    with a(2) ex show False by (simp add: passes_def)
  qed
  with ex show ?thesis by simp
qed

theorem false_excluded_witness:
  "relevant_attributes demo_env demo_namespace {}
     = (Inr [''B'', ''b'', ''config_list'', ''utils''], demo_excluded)
   \<and> (''flag'', py_False) \<in> set demo_namespace \<and> py_is py_False py_False
   \<and> distinct (map fst demo_namespace)
   \<and> is_relevant demo_env demo_excluded py_False ''flag'' = Inr False
   \<and> ''flag'' \<notin> set [''B'', ''b'', ''config_list'', ''utils'']"
proof -
  have h1: "relevant_attributes demo_env demo_namespace {}
     = (Inr [''B'', ''b'', ''config_list'', ''utils''], demo_excluded)"
    by code_simp
  have h2: "(''flag'', py_False) \<in> set demo_namespace"
    by (simp add: demo_namespace_def)
  have h3: "py_is py_False py_False"
    by (simp add: py_is_def)
  have h4: "distinct (map fst demo_namespace)"
    by (simp add: demo_namespace_def)
  from false_excluded [OF h1 h2 h3 h4] h1 h2 h3 h4 show ?thesis by simp
qed

subsection \<open>Sub-modules\<close>

text \<open>
  What the module branch computes for an entry that none of the five exclusion rules
  rejects: the text-prefix test on a \<open>__file__\<close> that is a \<open>str\<close>, and a rejection when the
  attribute is absent, the text of \<open>str(Path.cwd())\<close> being an absolute path and so never
  empty.
\<close>

lemma module_file_prefix:
  assumes "ismodule attr" and "cwd E \<noteq> []"
    and "\<not> truthy (getattr_static attr ''_deprecated'' attr_False)"
    and "\<not> py_is attr TYPE_CHECKING"
    and "\<not> (is_hashable attr \<and> py_in E attr S = Inr True)"
    and "name \<notin> {''pd'', ''jsonschema''}"
    and "\<not> truthy (getattr_static attr ''__deprecated__'' attr_False)"
  shows "(\<forall>p. map_of (obj_attrs attr) ''__file__'' = Some (PStr p)
              \<longrightarrow> is_relevant E S attr name = Inr (startswith p (cwd E)))
       \<and> (map_of (obj_attrs attr) ''__file__'' = None \<longrightarrow> is_relevant E S attr name = Inr False)"
proof -
  from assms have eq: "is_relevant E S attr name
      = attr_startswith (getattr_static attr ''__file__'' (PStr [])) (cwd E)"
    by (auto simp add: is_relevant_cases)
  from assms(2) show ?thesis
    by (simp add: eq getattr_static_def attr_startswith_def startswith_def)
qed

text \<open>
  Claim C6 fails on the code. With the working directory \<open>/repo\<close>, a module recorded in
  \<open>/repo2/altair/__init__.py\<close> lies outside that directory, since its path does not continue
  the directory's text with a separator; the test on the bare text accepts it, and its name
  is returned. A module whose \<open>__file__\<close> is \<open>None\<close> is not rejected either: the call of
  \<open>startswith\<close> on \<open>None\<close> raises \<open>AttributeError\<close>.
\<close>

theorem module_outside_included:
  "ismodule demo_sibling \<and> cwd demo_env = ''/repo''
   \<and> map_of (obj_attrs demo_sibling) ''__file__'' = Some (PStr ''/repo2/altair/__init__.py'')
   \<and> \<not> startswith ''/repo2/altair/__init__.py'' (cwd demo_env @ ''/'')
   \<and> is_relevant demo_env demo_excluded demo_sibling ''extras'' = Inr True
   \<and> relevant_attributes demo_env [(''extras'', demo_sibling)] {} = (Inr [''extras''], demo_excluded)
   \<and> ismodule demo_nspkg
   \<and> map_of (obj_attrs demo_nspkg) ''__file__'' = Some (PNonStr False (Inl AttributeError))
   \<and> is_relevant demo_env demo_excluded demo_nspkg ''nspkg'' = Inl AttributeError"
  by code_simp

subsection \<open>Repeated calls\<close>

lemma typing_values_contained:
  assumes "x \<in> set (typing_values E)"
  shows "py_in E x (snd (set_update E S (typing_values E))) = Inr True"
proof -
  have "\<forall>y\<in>set (typing_values E). obj_hash y \<noteq> HashTypeError"
    by (simp add: typing_values_hashed)
  from set_update_contains [OF this assms] show ?thesis .
qed

lemma relevant_attributes_grows: "S \<subseteq> snd (relevant_attributes E ns S)"
  by (simp add: relevant_attributes_eq set_update_grows)

lemma after_calls_grows: "S \<subseteq> after_calls E S nss"
proof (induction nss arbitrary: S)
  case Nil
  show ?case by simp
next
  case (Cons ns nss)
  have "S \<subseteq> snd (relevant_attributes E ns S)"
    by (rule relevant_attributes_grows)
  also have "\<dots> \<subseteq> after_calls E (snd (relevant_attributes E ns S)) nss"
    by (rule Cons.IH)
  finally show ?case by simp
qed

text \<open>
  Claim C8. A call of \<open>relevant_attributes\<close> extends the global exclusion set, and a second
  call on the same namespace, started from the extended set, returns the same outcome as the
  first and leaves the set as it is.
\<close>

theorem relevant_attributes_repeat:
  assumes "relevant_attributes E ns S = (r, S1)"
  shows "S \<subseteq> S1 \<and> relevant_attributes E ns S1 = (r, S1)"
proof -
  from assms have S1: "S1 = snd (set_update E S (typing_values E))"
    by (simp add: relevant_attributes_eq)
  have "\<forall>x\<in>set (typing_values E). py_in E x S1 = Inr True"
    unfolding S1 by (simp add: typing_values_contained)
  then have "set_update E S1 (typing_values E) = (Inr (), S1)"
    by (rule set_update_fixed)
  then have "relevant_attributes E ns S1 = relevant_attributes E ns S"
    using S1 by (simp add: relevant_attributes_eq)
  with assms S1 show ?thesis
    by (simp add: set_update_grows)
qed

theorem relevant_attributes_repeat_witness:
  "relevant_attributes demo_env demo_namespace {}
     = (Inr [''B'', ''b'', ''config_list'', ''utils''], demo_excluded)
   \<and> {} \<subseteq> demo_excluded
   \<and> relevant_attributes demo_env demo_namespace demo_excluded
     = (Inr [''B'', ''b'', ''config_list'', ''utils''], demo_excluded)"
proof -
  have h: "relevant_attributes demo_env demo_namespace {}
     = (Inr [''B'', ''b'', ''config_list'', ''utils''], demo_excluded)"
    by code_simp
  from relevant_attributes_repeat [OF h] h show ?thesis by simp
qed

text \<open>
  Claim C10. The exclusion set only grows: no call removes an element. A value that a
  call has put into the set is still in it after any number of further calls, and a later
  call, on whatever namespace, rejects every entry bound to that value, so that its name is
  absent from the returned list.
\<close>

theorem exclusion_set_grows:
  assumes "S1 = snd (relevant_attributes E ns0 S0)" and "v \<in> S1" and "v \<notin> S0"
    and "relevant_attributes E ns (after_calls E S1 nss) = (r, T)"
    and "(name, v) \<in> set ns"
  shows "S0 \<subseteq> S1 \<and> S1 \<subseteq> after_calls E S1 nss \<and> after_calls E S1 nss \<subseteq> T
       \<and> v \<in> T \<and> is_relevant E T v name = Inr False
       \<and> (\<forall>names. r = Inr names \<and> distinct (map fst ns) \<longrightarrow> name \<notin> set names)"
proof -
  have g1: "S0 \<subseteq> S1"
    unfolding assms(1) by (rule relevant_attributes_grows)
  have g2: "S1 \<subseteq> after_calls E S1 nss"
    by (rule after_calls_grows)
  have g3: "after_calls E S1 nss \<subseteq> T"
    using relevant_attributes_grows [of "after_calls E S1 nss" E ns] assms(4) by simp
  from assms(1) have "S1 \<subseteq> S0 \<union> set (typing_values E)"
    by (simp add: relevant_attributes_eq set_update_bound)
  with assms(2,3) have tv: "v \<in> set (typing_values E)" by auto
  then have hv: "is_hashable v" "obj_hash v \<noteq> HashTypeError"
    by (auto simp: typing_values_def is_hashable_iff)
  from g2 g3 assms(2) have vT: "v \<in> T" by auto
  with hv(2) have "py_in E v T = Inr True" by (rule py_in_self)
  with hv(1) have ex: "is_relevant E T v name = Inr False"
    by (simp add: is_relevant_cases)
  have "name \<notin> set names" if r: "r = Inr names" and d: "distinct (map fst ns)" for names
  proof
    assume "name \<in> set names"
    moreover from assms(4) r have "relevant_attributes E ns (after_calls E S1 nss) = (Inr names, T)"
      by simp
    then have "names = sort (map fst (filter (passes E T) ns))"
      by (rule relevant_attributes_names(2))
    ultimately obtain a where a: "(name, a) \<in> set ns" "passes E T (name, a)"
      by auto
    from d a(1) assms(5) have "a = v"
      by (meson eq_key_imp_eq_value)
    with a(2) ex show False by (simp add: passes_def)
  qed
  with g1 g2 g3 vT ex show ?thesis by blast
qed

theorem exclusion_set_grows_witness:
  "demo_excluded = snd (relevant_attributes demo_env demo_namespace {})
   \<and> demo_class 32 \<in> demo_excluded \<and> demo_class 32 \<notin> {}
   \<and> relevant_attributes demo_env other_namespace
        (after_calls demo_env demo_excluded [demo_namespace, []]) = (Inr [''Other''], demo_excluded)
   \<and> (''Alias'', demo_class 32) \<in> set other_namespace
   \<and> distinct (map fst other_namespace)
   \<and> is_relevant demo_env demo_excluded (demo_class 32) ''Alias'' = Inr False
   \<and> ''Alias'' \<notin> set [''Other'']"
proof -
  have h1: "demo_excluded = snd (relevant_attributes demo_env demo_namespace {})"
    by code_simp
  have h2: "demo_class 32 \<in> demo_excluded"
    by (simp add: demo_excluded_def)
  have h3: "demo_class 32 \<notin> {}"
    by simp
  have h4: "relevant_attributes demo_env other_namespace
        (after_calls demo_env demo_excluded [demo_namespace, []]) = (Inr [''Other''], demo_excluded)"
    by code_simp
  have h5: "(''Alias'', demo_class 32) \<in> set other_namespace"
    by (simp add: other_namespace_def)
  have h6: "distinct (map fst other_namespace)"
    by (simp add: other_namespace_def)
  from exclusion_set_grows [OF h1 h2 h3 h4 h5] h6
  have "is_relevant demo_env demo_excluded (demo_class 32) ''Alias'' = Inr False
      \<and> ''Alias'' \<notin> set [''Other'']"
    by blast
  with h1 h2 h3 h4 h5 h6 show ?thesis by blast
qed

subsection \<open>The order of the result\<close>




subsection \<open>The declaration block\<close>

text \<open>
  Claim C3. When no line of the file starts with \<open>__all__ =\<close>, or no line that starts
  with \<open>]\<close> comes after a line that starts with \<open>__all__ =\<close>, the run ends with an
  assertion failure and leaves the state as it was: the file is not written and the
  exclusion set is not extended, so the new list was never computed.
\<close>

theorem missing_markers_abort:
  assumes "lines = map strip_newlines (init_file w)"
    and "(\<forall>i<length lines. \<not> startswith (lines ! i) ''__all__ ='')
       \<or> (\<forall>i j. i < j \<and> j < length lines \<and> startswith (lines ! i) ''__all__ =''
             \<longrightarrow> \<not> startswith (lines ! j) '']'')"
  shows "update__all__variable E w = (Inl AssertionError, w)"
proof -
  from assms(2) have "fst (find_definition lines 0 None) = None
      \<or> snd (find_definition lines 0 None) = None"
  proof
    assume "\<forall>i<length lines. \<not> startswith (lines ! i) ''__all__ =''"
    then have "\<forall>l\<in>set lines. \<not> startswith l ''__all__ =''"
      by (auto simp: in_set_conv_nth)
    then show ?thesis by (simp add: find_definition_no_decl)
  next
    assume "\<forall>i j. i < j \<and> j < length lines \<and> startswith (lines ! i) ''__all__ =''
             \<longrightarrow> \<not> startswith (lines ! j) '']''"
    then have "snd (find_definition lines 0 None) = None"
      by (intro find_definition_no_close) simp_all
    then show ?thesis ..
  qed
  then show ?thesis
    unfolding update__all__variable_def assms(1) [symmetric]
    by (cases "find_definition lines 0 None") (auto simp: Let_def split: option.splits)
qed

theorem missing_markers_abort_witness:
  "update__all__variable demo_env demo_world_no_decl = (Inl AssertionError, demo_world_no_decl)
   \<and> update__all__variable demo_env demo_world_unclosed = (Inl AssertionError, demo_world_unclosed)"
proof -
  have l1: "map strip_newlines (init_file demo_world_no_decl) = [''import x'', '']'', ''y = 1'']"
    by (simp add: demo_world_no_decl_def demo_line_def strip_newlines_def)
  have l2: "map strip_newlines (init_file demo_world_unclosed)
      = ['']'', ''__all__ = ['', ''    Chart,'']"
    by (simp add: demo_world_unclosed_def demo_line_def strip_newlines_def)
  have h1: "\<forall>i<length (map strip_newlines (init_file demo_world_no_decl)).
       \<not> startswith (map strip_newlines (init_file demo_world_no_decl) ! i) ''__all__ =''"
    unfolding l1 by (simp add: startswith_def All_less_Suc2 numeral_3_eq_3)
  have h2: "\<forall>i j. i < j \<and> j < length (map strip_newlines (init_file demo_world_unclosed))
         \<and> startswith (map strip_newlines (init_file demo_world_unclosed) ! i) ''__all__ =''
         \<longrightarrow> \<not> startswith (map strip_newlines (init_file demo_world_unclosed) ! j) '']''"
    unfolding l2 by (auto simp: startswith_def less_Suc_eq numeral_3_eq_3)
  from missing_markers_abort [OF refl disjI1 [OF h1], of demo_env]
       missing_markers_abort [OF refl disjI2 [OF h2], of demo_env]
  show ?thesis by blast
qed

lemma find_definition_block:
  assumes "find_definition ls 0 None = (Some i, Some j)"
  shows "\<exists>before opening between closing after.
      ls = before @ [opening] @ between @ [closing] @ after
    \<and> i = length before \<and> j = length before + length between + 1
    \<and> startswith opening ''__all__ ='' \<and> startswith closing '']''
    \<and> (\<forall>l\<in>set between. \<not> startswith l ''__all__ ='' \<and> \<not> startswith l '']'')
    \<and> (\<forall>p l q. before = p @ l # q \<and> startswith l '']''
          \<longrightarrow> (\<forall>x\<in>set p. \<not> startswith x ''__all__ =''))"
proof -
  from find_definition_split [OF assms] obtain pre c post where
    ls: "ls = pre @ c # post" and j0: "j = 0 + length pre" and c: "startswith c '']''"
    and A0: "\<forall>p l q. pre = p @ l # q \<and> startswith l '']'' \<longrightarrow>
             None = (None::nat option) \<and> (\<forall>x\<in>set p. \<not> startswith x ''__all__ ='')"
    and B0: "(\<forall>x\<in>set pre. \<not> startswith x ''__all__ ='') \<and> None = Some i
            \<or> (\<exists>p opn q. pre = p @ opn # q \<and> startswith opn ''__all__ =''
                  \<and> (\<forall>x\<in>set q. \<not> startswith x ''__all__ ='') \<and> i = 0 + length p)"
    by blast
  from j0 have j: "j = length pre" by simp
  from A0 have A: "\<forall>p l q. pre = p @ l # q \<and> startswith l '']'' \<longrightarrow>
             (\<forall>x\<in>set p. \<not> startswith x ''__all__ ='')"
    by blast
  from B0 have B: "\<exists>p opn q. pre = p @ opn # q \<and> startswith opn ''__all__ =''
                  \<and> (\<forall>x\<in>set q. \<not> startswith x ''__all__ ='') \<and> i = length p"
    by simp
  from B obtain p opn q where pre: "pre = p @ opn # q" and o: "startswith opn ''__all__ =''"
    and q: "\<forall>x\<in>set q. \<not> startswith x ''__all__ =''" and i: "i = length p"
    by blast
  have qc: "\<not> startswith l '']''" if "l \<in> set q" for l
  proof
    assume cl: "startswith l '']''"
    from that obtain q1 q2 where "q = q1 @ l # q2"
      by (auto simp: in_set_conv_decomp)
    with pre have "pre = (p @ opn # q1) @ l # q2" by simp
    with A cl have "\<forall>x\<in>set (p @ opn # q1). \<not> startswith x ''__all__ =''" by blast
    with o show False by simp
  qed
  have bc: "\<forall>x\<in>set p'. \<not> startswith x ''__all__ =''"
    if "p = p' @ l # q'" and "startswith l '']''" for p' l q'
  proof -
    from that(1) pre have "pre = p' @ l # (q' @ opn # q)" by simp
    with A that(2) show ?thesis by blast
  qed
  have "ls = p @ [opn] @ q @ [c] @ post \<and> i = length p \<and> j = length p + length q + 1"
    using ls pre i j by simp
  with o c q qc bc show ?thesis by blast
qed

lemma join_butlast:
  "join sep xs =
     (if xs = [] then [] else concat (map (\<lambda>x. x @ sep) (butlast xs)) @ last xs)"
  by (induction sep xs rule: join.induct) simp_all

text \<open>
  Claim C4. On a successful run the lines of the file split into the lines before the
  opening line, the opening line, the lines between, the closing line and the lines after
  it; the formatter receives the lines before, unchanged and in order, then one new line,
  then the lines after, unchanged and in order. The new line is \<open>__all__ = [\<close>, the \<open>repr\<close>
  of each name of the sorted list that \<open>relevant_attributes\<close> returns, every one but the
  last followed by a comma and a space, and \<open>]\<close>. The opening line is the last declaration
  line before the closing line, and the closing line is the first line starting with \<open>]\<close>
  that follows a declaration line.
\<close>

theorem splice_frame:
  assumes "update__all__variable E w = (Inr (), w')"
  shows "\<exists>before opening between closing after names.
      map strip_newlines (init_file w) = before @ [opening] @ between @ [closing] @ after
    \<and> startswith opening ''__all__ ='' \<and> startswith closing '']''
    \<and> (\<forall>l\<in>set between. \<not> startswith l ''__all__ ='' \<and> \<not> startswith l '']'')
    \<and> (\<forall>p l q. before = p @ l # q \<and> startswith l '']''
          \<longrightarrow> (\<forall>x\<in>set p. \<not> startswith x ''__all__ =''))
    \<and> relevant_attributes E (alt_dict E) (typing_constructs w) = (Inr names, typing_constructs w')
    \<and> sorted names
    \<and> init_file w' =
        write_lint_format E
          (before
           @ [''__all__ = [''
                @ (if names = [] then []
                   else concat (map (\<lambda>n. str_repr E n @ '', '') (butlast names))
                          @ str_repr E (last names))
                @ '']'']
           @ after)"
proof -
  let ?ls = "map strip_newlines (init_file w)"
  obtain f l where fd: "find_definition ?ls 0 None = (f, l)"
    by (cases "find_definition ?ls 0 None")
  obtain r S' where ra: "relevant_attributes E (alt_dict E) (typing_constructs w) = (r, S')"
    by (cases "relevant_attributes E (alt_dict E) (typing_constructs w)")
  from assms fd obtain i j where ij: "f = Some i" "l = Some j"
    by (auto simp: update__all__variable_def Let_def split: option.splits)
  from assms fd ij ra obtain names where r: "r = Inr names"
    by (cases r) (auto simp: update__all__variable_def Let_def)
  from assms fd ij ra r have w': "w' = \<lparr>init_file = write_lint_format E
        (take i ?ls @ [''__all__ = '' @ list_repr E names] @ drop (j + 1) ?ls),
      typing_constructs = S'\<rparr>"
    by (simp add: update__all__variable_def Let_def)
  from find_definition_block [of ?ls i j] fd ij
  obtain before opn between cls after where
    ls: "?ls = before @ [opn] @ between @ [cls] @ after"
    and i: "i = length before" and j: "j = length before + length between + 1"
    and rest: "startswith opn ''__all__ =''" "startswith cls '']''"
      "\<forall>l\<in>set between. \<not> startswith l ''__all__ ='' \<and> \<not> startswith l '']''"
      "\<forall>p l q. before = p @ l # q \<and> startswith l '']''
          \<longrightarrow> (\<forall>x\<in>set p. \<not> startswith x ''__all__ ='')"
    by blast
  have "take i ?ls = before"
    unfolding ls i by simp
  moreover have "drop (j + 1) ?ls = after"
    unfolding ls j by simp
  moreover have "''__all__ = '' @ list_repr E names
      = ''__all__ = ['' @ (if names = [] then []
                   else concat (map (\<lambda>n. str_repr E n @ '', '') (butlast names))
                          @ str_repr E (last names)) @ '']''"
    by (simp add: list_repr_def join_butlast map_butlast last_map comp_def)
  ultimately have "init_file w' =
      write_lint_format E (before @ [''__all__ = ['' @ (if names = [] then []
                   else concat (map (\<lambda>n. str_repr E n @ '', '') (butlast names))
                          @ str_repr E (last names)) @ '']''] @ after)"
    using w' by simp
  moreover have ran: "relevant_attributes E (alt_dict E) (typing_constructs w)
      = (Inr names, typing_constructs w')"
    using ra r w' by simp
  moreover from relevant_attributes_names(2) [OF ran] have "sorted names"
    by simp
  ultimately show ?thesis using ls rest by blast
qed

theorem splice_frame_witness:
  "update__all__variable demo_env demo_world
     = (Inr (), \<lparr>init_file =
          [''import x'' @ [CHR 0x0A],
           ''__all__ = ['' @ CHR 0x27 # ''B'' @ CHR 0x27 # '', '' @ CHR 0x27 # ''b'' @ CHR 0x27 # '', ''
              @ CHR 0x27 # ''config_list'' @ CHR 0x27 # '', '' @ CHR 0x27 # ''utils'' @ CHR 0x27 # '']''
              @ [CHR 0x0A],
           ''y = 1'' @ [CHR 0x0A]],
         typing_constructs = demo_excluded\<rparr>)
   \<and> (\<exists>before opening between closing after names.
      map strip_newlines (init_file demo_world) = before @ [opening] @ between @ [closing] @ after
    \<and> startswith opening ''__all__ ='' \<and> startswith closing '']''
    \<and> relevant_attributes demo_env (alt_dict demo_env) (typing_constructs demo_world)
        = (Inr names, demo_excluded)
    \<and> sorted names
    \<and> [''import x'' @ [CHR 0x0A],
           ''__all__ = ['' @ CHR 0x27 # ''B'' @ CHR 0x27 # '', '' @ CHR 0x27 # ''b'' @ CHR 0x27 # '', ''
              @ CHR 0x27 # ''config_list'' @ CHR 0x27 # '', '' @ CHR 0x27 # ''utils'' @ CHR 0x27 # '']''
              @ [CHR 0x0A],
           ''y = 1'' @ [CHR 0x0A]]
        = write_lint_format demo_env
          (before
           @ [''__all__ = [''
                @ (if names = [] then []
                   else concat (map (\<lambda>n. str_repr demo_env n @ '', '') (butlast names))
                          @ str_repr demo_env (last names))
                @ '']'']
           @ after))"
proof -
  have h: "update__all__variable demo_env demo_world
     = (Inr (), \<lparr>init_file =
          [''import x'' @ [CHR 0x0A],
           ''__all__ = ['' @ CHR 0x27 # ''B'' @ CHR 0x27 # '', '' @ CHR 0x27 # ''b'' @ CHR 0x27 # '', ''
              @ CHR 0x27 # ''config_list'' @ CHR 0x27 # '', '' @ CHR 0x27 # ''utils'' @ CHR 0x27 # '']''
              @ [CHR 0x0A],
           ''y = 1'' @ [CHR 0x0A]],
         typing_constructs = demo_excluded\<rparr>)"
    by code_simp
  from splice_frame [OF h] have "\<exists>before opening between closing after names.
      map strip_newlines (init_file demo_world) = before @ [opening] @ between @ [closing] @ after
    \<and> startswith opening ''__all__ ='' \<and> startswith closing '']''
    \<and> relevant_attributes demo_env (alt_dict demo_env) (typing_constructs demo_world)
        = (Inr names, demo_excluded)
    \<and> sorted names
    \<and> [''import x'' @ [CHR 0x0A],
           ''__all__ = ['' @ CHR 0x27 # ''B'' @ CHR 0x27 # '', '' @ CHR 0x27 # ''b'' @ CHR 0x27 # '', ''
              @ CHR 0x27 # ''config_list'' @ CHR 0x27 # '', '' @ CHR 0x27 # ''utils'' @ CHR 0x27 # '']''
              @ [CHR 0x0A],
           ''y = 1'' @ [CHR 0x0A]]
        = write_lint_format demo_env
          (before
           @ [''__all__ = [''
                @ (if names = [] then []
                   else concat (map (\<lambda>n. str_repr demo_env n @ '', '') (butlast names))
                          @ str_repr demo_env (last names))
                @ '']'']
           @ after)"
    unfolding world.select_convs by blast
  with h show ?thesis ..
qed

subsection \<open>The typing module and the hashability guard\<close>

text \<open>
  The statement of C2 as given fails: the typing module binds the private name \<open>_T\<close>,
  which starts with the underscore that hides names of the primary namespace, and its
  value is put into the exclusion set all the same.
\<close>

theorem private_typing_name_added:
  "typing_dict private_env = [(''_T'', demo_class 31)] \<and> startswith ''_T'' ''_''
   \<and> demo_class 31 \<notin> {}
   \<and> demo_class 31 \<in> snd (relevant_attributes private_env [] {})
   \<and> \<not> (demo_class 31 \<in> snd (relevant_attributes private_env [] {}) - {}
          \<longleftrightarrow> \<not> startswith ''_T'' ''_'' \<and> obj_hash (demo_class 31) \<noteq> HashTypeError)"
  by code_simp

text \<open>
  Claim C2, amended. The names of the typing module that are skipped are those starting
  with two underscores. A call only adds to the exclusion set; every element it adds is
  the value of a name of the typing module that does not start with \<open>__\<close> and whose hash
  does not raise; and every value of such a name whose hash is an integer other than zero
  is a member of the set afterwards.
\<close>

theorem typing_values_added:
  assumes "relevant_attributes E ns S = (r, S')"
  shows "S \<subseteq> S'
       \<and> (\<forall>v\<in>S' - S. \<exists>k. (k, v) \<in> set (typing_dict E) \<and> \<not> startswith k ''__''
              \<and> obj_hash v \<noteq> HashTypeError)
       \<and> (\<forall>(k, v)\<in>set (typing_dict E). \<forall>h. \<not> startswith k ''__'' \<and> obj_hash v = Hashed h \<and> h \<noteq> 0
              \<longrightarrow> py_in E v S' = Inr True)"
proof -
  from assms have S': "S' = snd (set_update E S (typing_values E))"
    by (simp add: relevant_attributes_eq)
  have a: "S \<subseteq> S'"
    unfolding S' by (rule set_update_grows)
  have b: "\<exists>k. (k, v) \<in> set (typing_dict E) \<and> \<not> startswith k ''__''
              \<and> obj_hash v \<noteq> HashTypeError" if "v \<in> S' - S" for v
  proof -
    from that set_update_bound [of E S "typing_values E"] have "v \<in> set (typing_values E)"
      unfolding S' by auto
    then show ?thesis
      by (auto simp: typing_values_def is_hashable_iff)
  qed
  have c: "py_in E v S' = Inr True"
    if "(k, v) \<in> set (typing_dict E)" "\<not> startswith k ''__''" "obj_hash v = Hashed h" "h \<noteq> 0"
    for k v h
  proof -
    from that have "v \<in> set (typing_values E)"
      by (force simp: typing_values_def is_hashable_iff)
    then show ?thesis
      unfolding S' by (rule typing_values_contained)
  qed
  from a b c show ?thesis by blast
qed

theorem typing_values_added_witness:
  "relevant_attributes demo_env demo_namespace {}
     = (Inr [''B'', ''b'', ''config_list'', ''utils''], demo_excluded)
   \<and> (''_T'', demo_class 31) \<in> set (typing_dict demo_env) \<and> \<not> startswith ''_T'' ''__''
   \<and> obj_hash (demo_class 31) = Hashed 31
   \<and> py_in demo_env (demo_class 31) demo_excluded = Inr True
   \<and> demo_class 32 \<in> demo_excluded - {}
   \<and> (\<exists>k. (k, demo_class 32) \<in> set (typing_dict demo_env) \<and> \<not> startswith k ''__''
          \<and> obj_hash (demo_class 32) \<noteq> HashTypeError)"
proof -
  have h: "relevant_attributes demo_env demo_namespace {}
     = (Inr [''B'', ''b'', ''config_list'', ''utils''], demo_excluded)"
    by code_simp
  have k: "(''_T'', demo_class 31) \<in> set (typing_dict demo_env)" "\<not> startswith ''_T'' ''__''"
      "obj_hash (demo_class 31) = Hashed 31" "(31::int) \<noteq> 0"
    by (simp_all add: demo_env_def demo_class_def startswith_def)
  have m: "demo_class 32 \<in> demo_excluded - {}"
    by (simp add: demo_excluded_def)
  note t = typing_values_added [OF h]
  from t k have "py_in demo_env (demo_class 31) demo_excluded = Inr True"
    by blast
  moreover from t m have "\<exists>k. (k, demo_class 32) \<in> set (typing_dict demo_env)
      \<and> \<not> startswith k ''__'' \<and> obj_hash (demo_class 32) \<noteq> HashTypeError"
    by blast
  ultimately show ?thesis using h k m by blast
qed

text \<open>
  Claim C1 fails on the integer \<open>0\<close>: its hash is computed without an error, yet the guard
  \<open>bool(hash(obj))\<close> answers false, since the hash is \<open>0\<close>. Membership in the exclusion set
  is then not tested, the typing module's binding of \<open>0\<close> is not added to the set, and the
  name bound to \<open>0\<close> is returned.
\<close>

theorem zero_hash_not_hashable:
  "obj_hash demo_zero = Hashed 0 \<and> \<not> is_hashable demo_zero
   \<and> py_in zero_env demo_zero {demo_zero} = Inr True
   \<and> is_relevant zero_env {demo_zero} demo_zero ''Zero'' = Inr True
   \<and> typing_dict zero_env = [(''Zero'', demo_zero)]
   \<and> relevant_attributes zero_env [(''Zero'', demo_zero)] {} = (Inr [''Zero''], {})"
  by code_simp

end
